theory Spec2Isabelle
  imports Main
begin

section \<open>ReachPilot: the outreach pipeline of reachpilot.mjs\<close>

text \<open>
  The program drives a browser. Everything the browser, the network and the clock answer
  is an input of the model: each fallible call of the source reads its answer from an
  environment value, and a call that rejects (throws) is a branch of the model. Texts are
  lists of 8-bit characters read as ASCII; the behaviour of the JavaScript string
  functions on characters outside ASCII is not modelled. \<open>sleep\<close> and \<open>log\<close> have no
  effect on the state and are left out, as are the randomised pauses. Writing the state
  file (\<open>saveState\<close>) and closing a page (\<open>Page.close\<close>) are taken to succeed.
  The \<open>state\<close> object is a map from handles to records: a handle that names a property
  every JavaScript object inherits (such as \<open>constructor\<close>) is read as a key like any
  other, and every stored value is a record.
\<close>

subsection \<open>Outcome of a call that may throw\<close>

datatype 'a outcome = Threw | Returned 'a

subsection \<open>JavaScript string functions (ASCII)\<close>

definition is_lower :: "char \<Rightarrow> bool" where
  "is_lower c = (97 \<le> (of_char c :: nat) \<and> (of_char c :: nat) \<le> 122)"

definition is_upper :: "char \<Rightarrow> bool" where
  "is_upper c = (65 \<le> (of_char c :: nat) \<and> (of_char c :: nat) \<le> 90)"

definition is_digit :: "char \<Rightarrow> bool" where
  "is_digit c = (48 \<le> (of_char c :: nat) \<and> (of_char c :: nat) \<le> 57)"

text \<open>The white space of \<open>\s\<close> and of \<open>trim\<close>: tab, line feed, vertical tab, form feed,
  carriage return and space.\<close>

definition is_space :: "char \<Rightarrow> bool" where
  "is_space c = ((9 \<le> (of_char c :: nat) \<and> (of_char c :: nat) \<le> 13) \<or> c = CHR '' '')"

definition upper_char :: "char \<Rightarrow> char" where
  "upper_char c = (if is_lower c then char_of ((of_char c :: nat) - 32) else c)"

definition lower_char :: "char \<Rightarrow> char" where
  "lower_char c = (if is_upper c then char_of ((of_char c :: nat) + 32) else c)"

definition toUpperCase :: "string \<Rightarrow> string" where
  "toUpperCase s = map upper_char s"

definition toLowerCase :: "string \<Rightarrow> string" where
  "toLowerCase s = map lower_char s"

definition startsWith :: "string \<Rightarrow> string \<Rightarrow> bool" where
  "startsWith s p = (take (length p) s = p)"

text \<open>\<open>s.includes(sub)\<close>: some suffix of \<open>s\<close> starts with \<open>sub\<close>.\<close>

fun str_includes :: "string \<Rightarrow> string \<Rightarrow> bool" where
  "str_includes [] sub = (sub = [])"
| "str_includes (c # cs) sub = (if startsWith (c # cs) sub then True else str_includes cs sub)"

definition trim :: "string \<Rightarrow> string" where
  "trim s = rev (dropWhile is_space (rev (dropWhile is_space s)))"

subsection \<open>The provider's reply as a JSON value\<close>

datatype json =
    JNull
  | JBool bool
  | JNum int
  | JStr string
  | JArr "json list"
  | JObj "(string \<times> json) list"

text \<open>
  Property reads of the optional chain \<open>data.choices?.[0]?.message?.content?.trim()\<close>.
  \<open>None\<close> is JavaScript's \<open>undefined\<close>. A later duplicate key of an object wins, as in
  \<open>JSON.parse\<close>. The names read here (\<open>choices\<close>, \<open>message\<close>, \<open>content\<close>) are no built-in
  property of arrays, strings, numbers or booleans, so reading them there is \<open>undefined\<close>.
\<close>

fun get_prop :: "json \<Rightarrow> string \<Rightarrow> json option" where
  "get_prop (JObj kvs) k = map_of (rev kvs) k"
| "get_prop _ k = None"

text \<open>\<open>v[0]\<close>: the first element of an array, the first character of a string, the
  property \<open>"0"\<close> of an object.\<close>

fun get_index0 :: "json \<Rightarrow> json option" where
  "get_index0 (JArr xs) = (case xs of [] \<Rightarrow> None | x # _ \<Rightarrow> Some x)"
| "get_index0 (JStr s) = (case s of [] \<Rightarrow> None | c # _ \<Rightarrow> Some (JStr [c]))"
| "get_index0 (JObj kvs) = map_of (rev kvs) ''0''"
| "get_index0 _ = None"

text \<open>\<open>a?.b\<close>: \<open>undefined\<close> and \<open>null\<close> short-circuit to \<open>undefined\<close>.\<close>

definition opt_chain :: "json option \<Rightarrow> (json \<Rightarrow> json option) \<Rightarrow> json option" where
  "opt_chain v f = (case v of None \<Rightarrow> None | Some JNull \<Rightarrow> None | Some x \<Rightarrow> f x)"

text \<open>
  \<open>const answer = data.choices?.[0]?.message?.content?.trim() || ""\<close>.
  \<open>Threw\<close> is the TypeError of the source: \<open>data\<close> is \<open>null\<close> (the first read is not
  optional), or \<open>content\<close> is neither \<open>undefined\<close>, \<open>null\<close> nor a string, so that
  \<open>content.trim\<close> is not a function.
\<close>

definition answer_of :: "json \<Rightarrow> string outcome" where
  "answer_of data =
     (case data of
        JNull \<Rightarrow> Threw
      | _ \<Rightarrow>
        (case opt_chain (opt_chain (opt_chain (get_prop data ''choices'') get_index0)
                 (\<lambda>c. get_prop c ''message'')) (\<lambda>m. get_prop m ''content'') of
           None \<Rightarrow> Returned []
         | Some JNull \<Rightarrow> Returned []
         | Some (JStr s) \<Rightarrow> Returned (trim s)
         | Some _ \<Rightarrow> Threw))"

text \<open>\<open>answer.match(/GENDER:\s*(male|female|unknown)/i)\<close>, then \<open>[1].toLowerCase()\<close>.
  \<open>gender_at\<close> is the pattern anchored at the head of the text; the search tries every
  start from the left.\<close>

definition gender_at :: "string \<Rightarrow> string option" where
  "gender_at s =
     (if startsWith (toLowerCase s) ''gender:'' then
        (let r = dropWhile is_space (drop 7 (toLowerCase s)) in
         if startsWith r ''male'' then Some ''male''
         else if startsWith r ''female'' then Some ''female''
         else if startsWith r ''unknown'' then Some ''unknown''
         else None)
      else None)"

fun find_gender :: "string \<Rightarrow> string option" where
  "find_gender [] = None"
| "find_gender (c # cs) =
     (case gender_at (c # cs) of Some g \<Rightarrow> Some g | None \<Rightarrow> find_gender cs)"

subsection \<open>Configuration\<close>

record config =
  SCREENING_ENABLED :: bool
  OPENAI_KEY :: string
  own_handle :: string

subsection \<open>screenProfile\<close>

datatype http_body = NotJson | Body json

text \<open>\<open>fetch\<close> rejects on a network failure or a timeout; otherwise it resolves with a
  response, whatever its HTTP status. \<open>res.json()\<close> rejects when the body is not JSON.\<close>

datatype fetch_result = FetchFailed | Response nat http_body

record screen_env =
  snapshot_ok :: bool
  fetched :: fetch_result

record screen_result =
  passes :: bool
  gender :: string

definition pass_unknown :: screen_result where
  "pass_unknown = \<lparr>passes = True, gender = ''unknown''\<rparr>"

text \<open>The scroll, the screenshot and the read of the screenshot file stand before the
  \<open>try\<close>: when one of them throws (\<open>snapshot_ok\<close> is false), screenProfile throws.\<close>

definition screenProfile :: "config \<Rightarrow> screen_env \<Rightarrow> screen_result outcome" where
  "screenProfile cfg env =
     (if SCREENING_ENABLED cfg \<and> OPENAI_KEY cfg \<noteq> [] then
        (if snapshot_ok env then
           (case fetched env of
              FetchFailed \<Rightarrow> Returned pass_unknown
            | Response status NotJson \<Rightarrow> Returned pass_unknown
            | Response status (Body data) \<Rightarrow>
                (case answer_of data of
                   Threw \<Rightarrow> Returned pass_unknown
                 | Returned answer \<Rightarrow>
                     Returned \<lparr>passes = str_includes (toUpperCase answer) ''MATCH: YES'',
                               gender = (case find_gender answer of
                                           Some g \<Rightarrow> g | None \<Rightarrow> ''unknown'')\<rparr>))
         else Threw)
      else Returned pass_unknown)"

subsection \<open>Extracting the handle from a post page\<close>

type_synonym handle = string

text \<open>The character class \<open>[a-zA-Z0-9._]\<close>.\<close>

definition is_handle_char :: "char \<Rightarrow> bool" where
  "is_handle_char c =
     (is_lower c \<or> is_upper c \<or> is_digit c \<or> c = CHR ''.'' \<or> c = CHR ''_'')"

definition skipPages :: "string list" where
  "skipPages = [''explore'', ''reels'', ''reel'', ''accounts'', ''direct'', ''stories'',
     ''p'', ''tv'', ''about'', ''legal'', ''privacy'', ''terms'', ''tags'', ''locations'']"

text \<open>
  \<open>href.match(/^\/([a-zA-Z0-9._]{1,30})\/?$/)\<close>. No character of the class is a slash,
  so the group can only be the whole run of class characters after the first slash.
\<close>

definition match_profile_href :: "string \<Rightarrow> handle option" where
  "match_profile_href s =
     (case s of
        [] \<Rightarrow> None
      | c # cs \<Rightarrow>
          (let name = takeWhile is_handle_char cs; rest = dropWhile is_handle_char cs in
           if c = CHR ''/'' \<and> name \<noteq> [] \<and> length name \<le> 30 \<and> (rest = [] \<or> rest = ''/'')
           then Some name else None))"

text \<open>An \<open>a[href^="/"]\<close> element: its \<open>href\<close> attribute and the \<open>textContent\<close> of its
  first \<open>span\<close> descendant, if it has one.\<close>

record anchor =
  href :: string
  span_text :: "string option"

text \<open>First loop of strategy 1: the first profile link whose span shows its own path
  segment.\<close>

fun labelled_author :: "anchor list \<Rightarrow> handle option" where
  "labelled_author [] = None"
| "labelled_author (a # rest) =
     (case match_profile_href (href a) of
        None \<Rightarrow> labelled_author rest
      | Some h \<Rightarrow>
          if h \<in> set skipPages then labelled_author rest
          else (case span_text a of
                  None \<Rightarrow> labelled_author rest
                | Some t \<Rightarrow> if trim t = h then Some h else labelled_author rest))"

text \<open>Second loop of strategy 1: the first link that looks like \<open>/username/\<close>.\<close>

fun first_profile_link :: "anchor list \<Rightarrow> handle option" where
  "first_profile_link [] = None"
| "first_profile_link (a # rest) =
     (case match_profile_href (href a) of
        None \<Rightarrow> first_profile_link rest
      | Some h \<Rightarrow> if h \<in> set skipPages then first_profile_link rest else Some h)"

definition strategy1 :: "anchor list \<Rightarrow> handle option" where
  "strategy1 allLinks =
     (case labelled_author allLinks of
        Some h \<Rightarrow> Some h
      | None \<Rightarrow> first_profile_link allLinks)"

text \<open>\<open>text.match(/@([a-zA-Z0-9._]{1,30})/)\<close>: the leftmost \<open>@\<close> followed by a class
  character; the group is greedy, up to 30 characters.\<close>

fun at_mention :: "string \<Rightarrow> handle option" where
  "at_mention [] = None"
| "at_mention (c # cs) =
     (if c = CHR ''@'' \<and> takeWhile is_handle_char cs \<noteq> []
      then Some (take 30 (takeWhile is_handle_char cs))
      else at_mention cs)"

definition starts_space :: "string \<Rightarrow> bool" where
  "starts_space s = (case s of [] \<Rightarrow> False | c # _ \<Rightarrow> is_space c)"

text \<open>\<open>text.match(/^([a-zA-Z0-9._]{1,30})\s+on\s+Instagram/i)\<close>. White space is outside
  the class, so the group is the whole leading run of class characters.\<close>

definition on_instagram :: "string \<Rightarrow> handle option" where
  "on_instagram s =
     (let name = takeWhile is_handle_char s;
          r1 = dropWhile is_handle_char s;
          r2 = dropWhile is_space r1;
          r3 = drop 2 r2;
          r4 = dropWhile is_space r3
      in if name \<noteq> [] \<and> length name \<le> 30 \<and> starts_space r1
            \<and> toLowerCase (take 2 r2) = ''on'' \<and> starts_space r3
            \<and> toLowerCase (take 9 r4) = ''instagram''
         then Some name else None)"

text \<open>What strategy 2 reads: the \<open>content\<close> of the \<open>og:title\<close> meta element, if the page
  has one, and \<open>document.title\<close>.\<close>

record page_meta =
  og_title :: "string option"
  doc_title :: string

definition title_handle :: "string \<Rightarrow> handle option" where
  "title_handle t =
     (case at_mention t of Some h \<Rightarrow> Some h | None \<Rightarrow> on_instagram t)"

definition strategy2 :: "page_meta \<Rightarrow> handle option" where
  "strategy2 m =
     (case og_title m of
        None \<Rightarrow> title_handle (doc_title m)
      | Some content \<Rightarrow>
          (case title_handle content of
             Some h \<Rightarrow> Some h
           | None \<Rightarrow> title_handle (doc_title m)))"

text \<open>\<open>pageUrl.match(/instagram\.com\/([a-zA-Z0-9._]{1,30})\/(?:reel|p)\//)\<close>:
  \<open>url_owner_at\<close> is the pattern anchored at the head, the search tries every start.\<close>

definition url_owner_at :: "string \<Rightarrow> handle option" where
  "url_owner_at s =
     (if startsWith s ''instagram.com/'' then
        (let r = drop 14 s;
             name = takeWhile is_handle_char r;
             rest = dropWhile is_handle_char r
         in if name \<noteq> [] \<and> length name \<le> 30
               \<and> (startsWith rest ''/reel/'' \<or> startsWith rest ''/p/'')
            then Some name else None)
      else None)"

fun strategy3 :: "string \<Rightarrow> handle option" where
  "strategy3 [] = None"
| "strategy3 (c # cs) =
     (case url_owner_at (c # cs) of Some h \<Rightarrow> Some h | None \<Rightarrow> strategy3 cs)"

text \<open>A post page as the three strategies read it. The two \<open>evaluate\<close> calls stand in a
  \<open>try\<close> with an empty \<open>catch\<close>: \<open>None\<close> is a call that threw, and the handle stays
  \<open>null\<close>.\<close>

record post_page =
  allLinks :: "anchor list option"
  meta :: "page_meta option"
  pageUrl :: string

definition extract_handle :: "post_page \<Rightarrow> handle option" where
  "extract_handle pg =
     (let h1 = (case allLinks pg of None \<Rightarrow> None | Some links \<Rightarrow> strategy1 links);
          h2 = (case h1 of
                  Some h \<Rightarrow> Some h
                | None \<Rightarrow> (case meta pg of None \<Rightarrow> None | Some m \<Rightarrow> strategy2 m))
      in case h2 of Some h \<Rightarrow> Some h | None \<Rightarrow> strategy3 (pageUrl pg))"

subsection \<open>Expanding a keyword into post URLs\<close>

definition full_url :: "string \<Rightarrow> string" where
  "full_url h = (if startsWith h ''http'' then h else ''https://www.instagram.com'' @ h)"

text \<open>
  Reading the \<open>href\<close> of each link: \<open>getAttribute\<close> may throw, return \<open>null\<close> (\<open>None\<close>) or
  a string; \<open>if (href)\<close> drops \<open>null\<close> and the empty string. The suggestion loop stands
  in a \<open>try\<close> whose \<open>catch\<close> only logs, so a throw ends it and keeps what was pushed.
\<close>

fun read_suggestions :: "string option outcome list \<Rightarrow> string list" where
  "read_suggestions [] = []"
| "read_suggestions (Threw # rest) = []"
| "read_suggestions (Returned None # rest) = read_suggestions rest"
| "read_suggestions (Returned (Some h) # rest) =
     (if h = [] then read_suggestions rest else full_url h # read_suggestions rest)"

text \<open>\<open>encodeURIComponent\<close>: letters, digits and \<open>- _ . ! ~ * ' ( )\<close> stay, every other
  byte becomes \<open>%XX\<close>.\<close>

definition hex_digit :: "nat \<Rightarrow> char" where
  "hex_digit n = (if n < 10 then char_of (48 + n) else char_of (55 + n))"

definition uri_unreserved :: "char \<Rightarrow> bool" where
  "uri_unreserved c = (is_lower c \<or> is_upper c \<or> is_digit c \<or> c \<in> set ''-_.!~*'()'')"

definition encodeURIComponent :: "string \<Rightarrow> string" where
  "encodeURIComponent s =
     concat (map (\<lambda>c. if uri_unreserved c then [c]
                       else [CHR ''%'', hex_digit ((of_char c :: nat) div 16),
                             hex_digit ((of_char c :: nat) mod 16)]) s)"

text \<open>Steps 2 of searchInstagramForCreators: the first 5 suggestion links, or the
  keyword's own search URL when none was read. The argument is the result of
  \<open>locator(...).all()\<close>, which may throw.\<close>

definition suggestionUrls :: "string \<Rightarrow> string option outcome list outcome \<Rightarrow> string list" where
  "suggestionUrls query links =
     (let urls = (case links of
                    Threw \<Rightarrow> []
                  | Returned suggestionLinks \<Rightarrow> read_suggestions (take 5 suggestionLinks))
      in if urls = []
         then [''https://www.instagram.com/explore/search/keyword/?q='' @ encodeURIComponent query]
         else urls)"

text \<open>The loop over the post links of one suggestion page, with its two accumulators.
  It stands in the \<open>try\<close> of the suggestion: a throw abandons the suggestion.\<close>

fun reel_loop ::
  "string option outcome list \<Rightarrow> string set \<Rightarrow> string list \<Rightarrow> string list outcome" where
  "reel_loop [] seenUrls reelUrls = Returned reelUrls"
| "reel_loop (Threw # rest) seenUrls reelUrls = Threw"
| "reel_loop (Returned None # rest) seenUrls reelUrls = reel_loop rest seenUrls reelUrls"
| "reel_loop (Returned (Some h) # rest) seenUrls reelUrls =
     (if h = [] then reel_loop rest seenUrls reelUrls
      else if full_url h \<in> seenUrls then reel_loop rest seenUrls reelUrls
      else reel_loop rest (insert (full_url h) seenUrls) (reelUrls @ [full_url h]))"

definition collect_reelUrls :: "string option outcome list outcome \<Rightarrow> string list outcome" where
  "collect_reelUrls links =
     (case links of
        Threw \<Rightarrow> Threw
      | Returned reelLinks \<Rightarrow> reel_loop (take 24 reelLinks) {} [])"

subsection \<open>The state store, the browser context and the trace of a run\<close>

text \<open>A value of outreach-state.json. A field the source leaves out of an object literal
  (\<open>skippedReason\<close>, \<open>skippedAt\<close>, \<open>followedUpAt\<close>, \<open>source\<close>) is \<open>None\<close>, as is a \<open>null\<close>
  time. Times are milliseconds since the epoch.\<close>

record creator_record =
  sent :: bool
  sentAt :: "int option"
  skipped :: bool
  skippedReason :: "string option"
  skippedAt :: "int option"
  replied :: bool
  followedUp :: bool
  followedUpAt :: "int option"
  reelUrl :: string
  source :: "string option"

type_synonym store = "handle \<Rightarrow> creator_record option"

text \<open>The three levels of tabs, and the main page the run starts with.\<close>

datatype level = MainPage | SuggestionTab | PostTab | ProfileTab

text \<open>What a run does, in order: the calls the claims speak of. \<open>Admit h\<close> marks a
  post whose handle passed every check of the gate; \<open>Recorded h r\<close> is the assignment
  \<open>state[h] = r\<close> followed by \<open>saveState(state)\<close>.\<close>

datatype event =
    OpenPost string
  | Admit handle
  | OpenProfile handle
  | ScreenProfile handle
  | SendMessages handle
  | Recorded handle creator_record
  | CheckReply handle
  | FollowUpAttempt handle
  | FollowedUp handle

record world =
  state :: store
  disk :: store
  tabs :: "(nat \<times> level) list"
  next_tab :: nat
  trace :: "event list"

definition emit :: "event \<Rightarrow> world \<Rightarrow> world" where
  "emit e w = w\<lparr>trace := trace w @ [e]\<rparr>"

text \<open>\<open>context.newPage()\<close> opens a tab with a fresh identifier, \<open>next_tab w\<close>;
  \<open>page.close()\<close> removes it.\<close>

definition newPage :: "level \<Rightarrow> world \<Rightarrow> world" where
  "newPage l w = w\<lparr>tabs := tabs w @ [(next_tab w, l)], next_tab := Suc (next_tab w)\<rparr>"

definition closePage :: "nat \<Rightarrow> world \<Rightarrow> world" where
  "closePage t w = w\<lparr>tabs := filter (\<lambda>p. fst p \<noteq> t) (tabs w)\<rparr>"

definition saveState :: "world \<Rightarrow> world" where
  "saveState w = w\<lparr>disk := state w\<rparr>"

definition record_result :: "handle \<Rightarrow> creator_record \<Rightarrow> world \<Rightarrow> world" where
  "record_result h r w = saveState (emit (Recorded h r) (w\<lparr>state := (state w)(h \<mapsto> r)\<rparr>))"

text \<open>The two object literals the send paths write.\<close>

definition screened_out_record :: "int option \<Rightarrow> string \<Rightarrow> string option \<Rightarrow> creator_record" where
  "screened_out_record at url src =
     \<lparr>sent = False, sentAt = None, skipped = True, skippedReason = Some ''screening'',
      skippedAt = at, replied = False, followedUp = False, followedUpAt = None,
      reelUrl = url, source = src\<rparr>"

definition send_record :: "bool \<Rightarrow> int \<Rightarrow> string \<Rightarrow> string option \<Rightarrow> creator_record" where
  "send_record success now url src =
     \<lparr>sent = success, sentAt = (if success then Some now else None), skipped = (\<not> success),
      skippedReason = None, skippedAt = None, replied = False, followedUp = False,
      followedUpAt = None, reelUrl = url, source = src\<rparr>"

subsection \<open>sendMessages\<close>

text \<open>The Message button or the message input is not found (the function returns
  \<open>false\<close>), every part is typed and submitted (\<open>true\<close>), or a call outside the two
  \<open>try\<close> blocks throws.\<close>

datatype send_env = SendThrows | NoMessageButton | NoMessageInput | AllTyped

fun sendMessages :: "send_env \<Rightarrow> bool outcome" where
  "sendMessages SendThrows = Threw"
| "sendMessages NoMessageButton = Returned False"
| "sendMessages NoMessageInput = Returned False"
| "sendMessages AllTyped = Returned True"

text \<open>The skip test both send paths and the search path apply to a stored record.\<close>

definition already_sent :: "store \<Rightarrow> handle \<Rightarrow> bool" where
  "already_sent st h = (case st h of None \<Rightarrow> False | Some r \<Rightarrow> sent r)"

definition failed_screening :: "store \<Rightarrow> handle \<Rightarrow> bool" where
  "failed_screening st h =
     (case st h of None \<Rightarrow> False | Some r \<Rightarrow> skippedReason r = Some ''screening'')"

text \<open>\<open>ownHandle && handle.toLowerCase() === ownHandle.toLowerCase()\<close>.\<close>

definition is_own :: "config \<Rightarrow> handle \<Rightarrow> bool" where
  "is_own cfg h = (own_handle cfg \<noteq> [] \<and> toLowerCase h = toLowerCase (own_handle cfg))"

subsection \<open>searchInstagramForCreators: one post\<close>

record post_env =
  post_newPage_ok :: bool
  post_goto_ok :: bool
  page :: post_page
  profile_newPage_ok :: bool
  profile_goto_ok :: bool
  screening :: screen_env
  sending :: send_env
  now :: int

text \<open>How a block of statements ends: it runs to its end, it executes \<open>continue\<close>, or it
  throws.\<close>

datatype flow = Completes | Continues | Throws

text \<open>
  The body of the inner \<open>try\<close> (open the profile, screen, send). \<open>postTab\<close> is the
  identifier of the open post tab. The result carries the local variable \<open>profileTab\<close>
  (\<open>None\<close> is \<open>null\<close>), which the \<open>catch\<close> reads.
\<close>

definition profile_block ::
  "config \<Rightarrow> string \<Rightarrow> handle \<Rightarrow> nat \<Rightarrow> post_env \<Rightarrow> world \<times> handle list
     \<Rightarrow> flow \<times> nat option \<times> world \<times> handle list" where
  "profile_block cfg url h postTab e ws =
     (let w = fst ws; found = snd ws in
      if \<not> profile_newPage_ok e then (Throws, None, w, found)
      else
        (let profileTab = next_tab w;
             w1 = emit (OpenProfile h) (newPage ProfileTab w)
         in if \<not> profile_goto_ok e then (Throws, Some profileTab, w1, found)
            else
              (let w2 = emit (ScreenProfile h) w1 in
               case screenProfile cfg (screening e) of
                 Threw \<Rightarrow> (Throws, Some profileTab, w2, found)
               | Returned screenResult \<Rightarrow>
                   if \<not> passes screenResult then
                     (Continues, Some profileTab,
                      closePage postTab (closePage profileTab
                        (record_result h (screened_out_record (Some (now e)) url (Some ''ig'')) w2)),
                      found)
                   else
                     (let w3 = emit (SendMessages h) w2 in
                      case sendMessages (sending e) of
                        Threw \<Rightarrow> (Throws, Some profileTab, w3, found)
                      | Returned success \<Rightarrow>
                          (Completes, Some profileTab,
                           closePage profileTab
                             (record_result h (send_record success (now e) url (Some ''ig'')) w3),
                           if success then found @ [h] else found)))))"

text \<open>The inner \<open>try\<close> with its \<open>catch\<close>, which closes the profile tab if the variable
  is set and falls through to the statements that close the post tab.\<close>

definition profile_try ::
  "config \<Rightarrow> string \<Rightarrow> handle \<Rightarrow> nat \<Rightarrow> post_env \<Rightarrow> world \<times> handle list
     \<Rightarrow> flow \<times> world \<times> handle list" where
  "profile_try cfg url h postTab e ws =
     (case profile_block cfg url h postTab e ws of
        (Throws, profileTab, w, found) \<Rightarrow>
          (Completes, (case profileTab of None \<Rightarrow> w | Some t \<Rightarrow> closePage t w), found)
      | (fl, profileTab, w, found) \<Rightarrow> (fl, w, found))"

text \<open>
  One iteration of the loop over \<open>reelUrls\<close>. The outer \<open>catch\<close> is reached when
  \<open>newPage\<close> throws (\<open>postTab\<close> still \<open>null\<close>, nothing to close) or when \<open>goto\<close>
  throws (the post tab is closed there).
\<close>

definition process_post ::
  "config \<Rightarrow> string \<Rightarrow> post_env \<Rightarrow> world \<times> handle list \<Rightarrow> world \<times> handle list" where
  "process_post cfg url e ws =
     (let w = fst ws; found = snd ws in
      if \<not> post_newPage_ok e then (w, found)
      else
        (let postTab = next_tab w;
             w1 = emit (OpenPost url) (newPage PostTab w)
         in if \<not> post_goto_ok e then (closePage postTab w1, found)
            else
              (case extract_handle (page e) of
                 None \<Rightarrow> (closePage postTab w1, found)
               | Some h \<Rightarrow>
                   if is_own cfg h then (closePage postTab w1, found)
                   else if already_sent (state w1) h then (closePage postTab w1, found)
                   else if failed_screening (state w1) h then (closePage postTab w1, found)
                   else if h \<in> set found then (closePage postTab w1, found)
                   else
                     (case profile_try cfg url h postTab e (emit (Admit h) w1, found) of
                        (Continues, w2, found2) \<Rightarrow> (w2, found2)
                      | (fl, w2, found2) \<Rightarrow> (closePage postTab w2, found2)))))"

fun posts_loop ::
  "config \<Rightarrow> (nat \<Rightarrow> post_env) \<Rightarrow> nat \<Rightarrow> string list \<Rightarrow> world \<times> handle list
     \<Rightarrow> world \<times> handle list" where
  "posts_loop cfg envs j [] ws = ws"
| "posts_loop cfg envs j (url # rest) ws =
     posts_loop cfg envs (Suc j) rest (process_post cfg url (envs j) ws)"

subsection \<open>searchInstagramForCreators: suggestions and the whole search\<close>

record suggestion_env =
  tab_newPage_ok :: bool
  tab_goto_ok :: bool
  reelLinks :: "string option outcome list outcome"
  posts :: "nat \<Rightarrow> post_env"

definition process_suggestion ::
  "config \<Rightarrow> string \<Rightarrow> suggestion_env \<Rightarrow> world \<times> handle list \<Rightarrow> world \<times> handle list" where
  "process_suggestion cfg url se ws =
     (let w = fst ws; found = snd ws in
      if \<not> tab_newPage_ok se then (w, found)
      else
        (let suggestionTab = next_tab w;
             w1 = newPage SuggestionTab w
         in if \<not> tab_goto_ok se then (closePage suggestionTab w1, found)
            else
              (case collect_reelUrls (reelLinks se) of
                 Threw \<Rightarrow> (closePage suggestionTab w1, found)
               | Returned reelUrls \<Rightarrow>
                   (let ws2 = posts_loop cfg (posts se) 0 reelUrls (w1, found)
                    in (closePage suggestionTab (fst ws2), snd ws2)))))"

fun suggestions_loop ::
  "config \<Rightarrow> (nat \<Rightarrow> suggestion_env) \<Rightarrow> nat \<Rightarrow> string list \<Rightarrow> world \<times> handle list
     \<Rightarrow> world \<times> handle list" where
  "suggestions_loop cfg envs i [] ws = ws"
| "suggestions_loop cfg envs i (url # rest) ws =
     suggestions_loop cfg envs (Suc i) rest (process_suggestion cfg url (envs i) ws)"

record search_env =
  search_icon_ok :: bool
  search_input_ok :: bool
  suggestionLinks :: "string option outcome list outcome"
  suggestion :: "nat \<Rightarrow> suggestion_env"

text \<open>The function returns \<open>found\<close>; the \<open>state\<close> object it mutates is part of the
  world.\<close>

definition searchInstagramForCreators ::
  "config \<Rightarrow> string \<Rightarrow> search_env \<Rightarrow> world \<Rightarrow> world \<times> handle list" where
  "searchInstagramForCreators cfg query env w =
     (if \<not> search_icon_ok env then (w, [])
      else if \<not> search_input_ok env then (w, [])
      else suggestions_loop cfg (suggestion env) 0
             (suggestionUrls query (suggestionLinks env)) (w, []))"

subsection \<open>runIGSearch\<close>

text \<open>The loop of runIGSearch over the handles a search returned. \<open>newPage\<close> stands
  outside the \<open>try\<close>: when it throws, the run ends in its outer \<open>catch\<close> (the first
  component of the result is \<open>True\<close>). Every other throw is caught, the tab is closed and
  the loop goes on.\<close>

record handle_env =
  h_newPage_ok :: bool
  h_goto_ok :: bool
  h_screening :: screen_env
  h_sending :: send_env
  h_now :: int
  h_feed_ok :: bool

definition process_new_handle ::
  "config \<Rightarrow> handle \<Rightarrow> handle_env \<Rightarrow> world \<Rightarrow> bool \<times> world" where
  "process_new_handle cfg h e w =
     (if is_own cfg h then (False, w)
      else if already_sent (state w) h then (False, w)
      else if failed_screening (state w) h then (False, w)
      else if \<not> h_newPage_ok e then (True, emit (Admit h) w)
      else
        (let profileTab = next_tab w;
             w1 = emit (OpenProfile h) (newPage ProfileTab (emit (Admit h) w))
         in if \<not> h_goto_ok e then (False, closePage profileTab w1)
            else
              (let w2 = emit (ScreenProfile h) w1 in
               case screenProfile cfg (h_screening e) of
                 Threw \<Rightarrow> (False, closePage profileTab w2)
               | Returned screenResult \<Rightarrow>
                   if \<not> passes screenResult then
                     (False, closePage profileTab
                        (record_result h
                           (screened_out_record (Some (h_now e)) [] (Some ''ig-search'')) w2))
                   else
                     (let w3 = emit (SendMessages h) w2 in
                      case sendMessages (h_sending e) of
                        Threw \<Rightarrow> (False, closePage profileTab w3)
                      | Returned success \<Rightarrow>
                          (let w4 = closePage profileTab
                                 (record_result h
                                    (send_record success (h_now e) [] (Some ''ig-search'')) w3)
                           in if h_feed_ok e then (False, w4)
                              else (False, closePage profileTab w4))))))"

fun handles_loop ::
  "config \<Rightarrow> (nat \<Rightarrow> handle_env) \<Rightarrow> nat \<Rightarrow> handle list \<Rightarrow> world \<Rightarrow> bool \<times> world" where
  "handles_loop cfg envs k [] w = (False, w)"
| "handles_loop cfg envs k (h # rest) w =
     (case process_new_handle cfg h (envs k) w of
        (True, w') \<Rightarrow> (True, w')
      | (False, w') \<Rightarrow> handles_loop cfg envs (Suc k) rest w')"

record query_env =
  search :: search_env
  new_handle :: "nat \<Rightarrow> handle_env"
  q_feed_ok :: bool

definition process_query :: "config \<Rightarrow> string \<Rightarrow> query_env \<Rightarrow> world \<Rightarrow> bool \<times> world" where
  "process_query cfg query qe w =
     (let ws = searchInstagramForCreators cfg query (search qe) w in
      case handles_loop cfg (new_handle qe) 0 (snd ws) (fst ws) of
        (True, w') \<Rightarrow> (True, w')
      | (False, w') \<Rightarrow> (\<not> q_feed_ok qe, w'))"

fun queries_loop ::
  "config \<Rightarrow> (nat \<Rightarrow> query_env) \<Rightarrow> nat \<Rightarrow> string list \<Rightarrow> world \<Rightarrow> bool \<times> world" where
  "queries_loop cfg envs i [] w = (False, w)"
| "queries_loop cfg envs i (query # rest) w =
     (case process_query cfg query (envs i) w of
        (True, w') \<Rightarrow> (True, w')
      | (False, w') \<Rightarrow> queries_loop cfg envs (Suc i) rest w')"

text \<open>A run starts from the state file: \<open>state = loadState()\<close>, one main page, nothing
  done yet.\<close>

definition start_world :: "store \<Rightarrow> world" where
  "start_world st =
     \<lparr>state = st, disk = st, tabs = [(0, MainPage)], next_tab = 1, trace = []\<rparr>"

text \<open>The body of a run's outer \<open>try\<close> ends normally or throws; the \<open>catch\<close> saves the
  state.\<close>

definition end_run :: "bool \<times> world \<Rightarrow> world" where
  "end_run r = (if fst r then saveState (snd r) else snd r)"

record igsearch_env =
  ig_session_ok :: bool
  ig_query :: "nat \<Rightarrow> query_env"

definition runIGSearch :: "config \<Rightarrow> string list \<Rightarrow> igsearch_env \<Rightarrow> store \<Rightarrow> world" where
  "runIGSearch cfg queries env st =
     (if \<not> ig_session_ok env then end_run (True, start_world st)
      else end_run (queries_loop cfg (ig_query env) 0 queries (start_world st)))"

subsection \<open>runSend\<close>

text \<open>A discovered creator; the fields that only shape the message text are left out.\<close>

record creator =
  handle_of :: handle
  creator_reelUrl :: string

record creator_env =
  c_feed_ok :: bool
  c_open_ok :: bool
  c_screening :: screen_env
  c_sending :: send_env
  c_now :: int
  c_home_ok :: bool

text \<open>One iteration of the loop of runSend. Nothing in it is caught: a throw ends the
  run in the outer \<open>catch\<close>.\<close>

definition send_creator ::
  "config \<Rightarrow> nat \<Rightarrow> creator \<Rightarrow> creator_env \<Rightarrow> world \<Rightarrow> bool \<times> world" where
  "send_creator cfg ci c e w =
     (let h = handle_of c in
      if already_sent (state w) h then (False, w)
      else if failed_screening (state w) h then (False, w)
      else if 0 < ci \<and> \<not> c_feed_ok e then (True, emit (Admit h) w)
      else
        (let w1 = emit (OpenProfile h) (emit (Admit h) w) in
         if \<not> c_open_ok e then (True, w1)
         else
           (let w2 = emit (ScreenProfile h) w1 in
            case screenProfile cfg (c_screening e) of
              Threw \<Rightarrow> (True, w2)
            | Returned screenResult \<Rightarrow>
                if \<not> passes screenResult then
                  (False, record_result h (screened_out_record None (creator_reelUrl c) None) w2)
                else
                  (let w3 = emit (SendMessages h) w2 in
                   case sendMessages (c_sending e) of
                     Threw \<Rightarrow> (True, w3)
                   | Returned success \<Rightarrow>
                       (let w4 = record_result h
                              (send_record success (c_now e) (creator_reelUrl c) None) w3
                        in if success \<and> \<not> c_home_ok e then (True, w4) else (False, w4))))))"

fun send_loop ::
  "config \<Rightarrow> (nat \<Rightarrow> creator_env) \<Rightarrow> nat \<Rightarrow> creator list \<Rightarrow> world \<Rightarrow> bool \<times> world" where
  "send_loop cfg envs ci [] w = (False, w)"
| "send_loop cfg envs ci (c # rest) w =
     (case send_creator cfg ci c (envs ci) w of
        (True, w') \<Rightarrow> (True, w')
      | (False, w') \<Rightarrow> send_loop cfg envs (Suc ci) rest w')"

record send_run_env =
  send_session_ok :: bool
  send_creator_env :: "nat \<Rightarrow> creator_env"

definition runSend :: "config \<Rightarrow> creator list \<Rightarrow> send_run_env \<Rightarrow> store \<Rightarrow> world" where
  "runSend cfg creators env st =
     (if \<not> send_session_ok env then end_run (True, start_world st)
      else end_run (send_loop cfg (send_creator_env env) 0 creators (start_world st)))"

subsection \<open>checkReply and runFollowup\<close>

text \<open>What checkReply meets: opening the profile may throw (it is not caught), the
  Message button may be missing, and \<open>locator('div[role="row"]').all()\<close> returns the rows
  (their number is \<open>Some n\<close>) or throws (\<open>None\<close>).\<close>

record dm_env =
  dm_profile_ok :: bool
  message_button :: bool
  rows :: "nat option"

record reply_result =
  reply :: bool
  error :: bool

definition checkReply :: "dm_env \<Rightarrow> reply_result outcome" where
  "checkReply d =
     (if \<not> dm_profile_ok d then Threw
      else if \<not> message_button d then Returned \<lparr>reply = False, error = True\<rparr>
      else (case rows d of
              None \<Rightarrow> Returned \<lparr>reply = False, error = True\<rparr>
            | Some n \<Rightarrow> Returned \<lparr>reply = (6 < n), error = False\<rparr>))"

text \<open>\<open>new Date(s.sentAt).getTime()\<close>; a \<open>null\<close> time reads as 0.\<close>

definition sent_ms :: "creator_record \<Rightarrow> int" where
  "sent_ms s = (case sentAt s of None \<Rightarrow> 0 | Some t \<Rightarrow> t)"

text \<open>
  \<open>daysSinceSent < 3\<close> with \<open>daysSinceSent = (Date.now() - sentDate.getTime()) / 86400000\<close>.
  Both times are whole milliseconds, so the test on the quotient is the test
  \<open>now - sent < 3 * 86400000\<close> on integers.
\<close>

definition too_early :: "int \<Rightarrow> creator_record \<Rightarrow> bool" where
  "too_early t s = (t - sent_ms s < 3 * 86400000)"

record followup_env =
  f_feed_ok :: bool
  dm :: dm_env
  f_now :: int
  followup_typed :: bool
  f_typed_at :: int

text \<open>One iteration of the loop of runFollowup. \<open>s\<close> is the object \<open>state[c.handle]\<close>
  itself, so the two assignments update the record \<open>s\<close>.\<close>

definition followup_creator :: "creator \<Rightarrow> followup_env \<Rightarrow> world \<Rightarrow> bool \<times> world" where
  "followup_creator c e w =
     (let h = handle_of c in
      case state w h of
        None \<Rightarrow> (False, w)
      | Some s \<Rightarrow>
          if \<not> sent s then (False, w)
          else if \<not> f_feed_ok e then (True, w)
          else
            (let w1 = emit (CheckReply h) w in
             case checkReply (dm e) of
               Threw \<Rightarrow> (True, w1)
             | Returned result \<Rightarrow>
                 if reply result then
                   (False, saveState (w1\<lparr>state := (state w1)(h \<mapsto> s\<lparr>replied := True\<rparr>)\<rparr>))
                 else if \<not> error result \<and> \<not> followedUp s then
                   (if too_early (f_now e) s then (False, w1)
                    else
                      (let w2 = emit (FollowUpAttempt h) w1 in
                       if followup_typed e then
                         (False, saveState (emit (FollowedUp h)
                            (w2\<lparr>state := (state w2)(h \<mapsto>
                                  s\<lparr>followedUp := True, followedUpAt := Some (f_typed_at e)\<rparr>)\<rparr>)))
                       else (False, saveState w2)))
                 else (False, saveState w1)))"

fun followup_loop ::
  "(nat \<Rightarrow> followup_env) \<Rightarrow> nat \<Rightarrow> creator list \<Rightarrow> world \<Rightarrow> bool \<times> world" where
  "followup_loop envs i [] w = (False, w)"
| "followup_loop envs i (c # rest) w =
     (case followup_creator c (envs i) w of
        (True, w') \<Rightarrow> (True, w')
      | (False, w') \<Rightarrow> followup_loop envs (Suc i) rest w')"

record followup_run_env =
  f_session_ok :: bool
  f_creator_env :: "nat \<Rightarrow> followup_env"

text \<open>With no creators the source exits before it opens a browser; the loop over the
  empty list does nothing either.\<close>

definition runFollowup :: "creator list \<Rightarrow> followup_run_env \<Rightarrow> store \<Rightarrow> world" where
  "runFollowup creators env st =
     (if \<not> f_session_ok env then end_run (True, start_world st)
      else end_run (followup_loop (f_creator_env env) 0 creators (start_world st)))"

subsection \<open>Successive runs\<close>

datatype run =
    RunSend config "creator list" send_run_env
  | RunIGSearch config "string list" igsearch_env
  | RunFollowup "creator list" followup_run_env



section \<open>Predicates of the statements and their proofs\<close>

definition tabs_fresh :: "world \<Rightarrow> bool" where
  "tabs_fresh w = list_all (\<lambda>p. fst p < next_tab w) (tabs w)"

definition open_tabs :: "level \<Rightarrow> world \<Rightarrow> nat" where
  "open_tabs l w = length (filter (\<lambda>p. snd p = l) (tabs w))"

text \<open>A property of the world that every step of the search run keeps.\<close>

definition ig_invariant :: "config \<Rightarrow> (world \<Rightarrow> bool) \<Rightarrow> bool" where
  "ig_invariant cfg I =
     ((\<forall>url e w found. I w \<longrightarrow> I (fst (process_post cfg url e (w, found))))
    \<and> (\<forall>h e w. I w \<longrightarrow> I (snd (process_new_handle cfg h e w)))
    \<and> (\<forall>l w. I w \<longrightarrow> I (newPage l w))
    \<and> (\<forall>t w. I w \<longrightarrow> I (closePage t w))
    \<and> (\<forall>w. I w \<longrightarrow> I (saveState w)))"

text \<open>The same for the send run and the follow-up run.\<close>

definition send_invariant :: "config \<Rightarrow> (world \<Rightarrow> bool) \<Rightarrow> bool" where
  "send_invariant cfg I =
     ((\<forall>ci c e w. I w \<longrightarrow> I (snd (send_creator cfg ci c e w)))
    \<and> (\<forall>w. I w \<longrightarrow> I (saveState w)))"

definition followup_invariant :: "(world \<Rightarrow> bool) \<Rightarrow> bool" where
  "followup_invariant I =
     ((\<forall>c e w. I w \<longrightarrow> I (snd (followup_creator c e w)))
    \<and> (\<forall>w. I w \<longrightarrow> I (saveState w)))"

definition sent_untouched :: "handle \<Rightarrow> world \<Rightarrow> bool" where
  "sent_untouched h w =
     (already_sent (state w) h \<and> SendMessages h \<notin> set (trace w)
      \<and> OpenProfile h \<notin> set (trace w))"

subsection \<open>Sample inputs\<close>

definition sample_cfg :: config where
  "sample_cfg = \<lparr>SCREENING_ENABLED = True, OPENAI_KEY = ''sk-test'', own_handle = ''me''\<rparr>"

text \<open>A reply of the provider whose first choice has the given content.\<close>

definition provider_says :: "string \<Rightarrow> screen_env" where
  "provider_says content =
     \<lparr>snapshot_ok = True,
      fetched = Response 200 (Body (JObj [(''choices'',
        JArr [JObj [(''message'', JObj [(''content'', JStr content)])]])]))\<rparr>"

text \<open>A post page whose header links to the profile of \<open>h\<close>.\<close>

definition sample_page :: "handle \<Rightarrow> post_page" where
  "sample_page h =
     \<lparr>allLinks = Some [\<lparr>href = ''/'' @ h @ ''/'', span_text = Some h\<rparr>],
      meta = None, pageUrl = ''https://www.instagram.com/p/abc/''\<rparr>"

definition sample_post :: "handle \<Rightarrow> screen_env \<Rightarrow> send_env \<Rightarrow> post_env" where
  "sample_post h scr snd_env =
     \<lparr>post_newPage_ok = True, post_goto_ok = True, page = sample_page h,
      profile_newPage_ok = True, profile_goto_ok = True, screening = scr,
      sending = snd_env, now = 1000\<rparr>"

definition sample_creator :: "handle \<Rightarrow> creator" where
  "sample_creator h = \<lparr>handle_of = h, creator_reelUrl = ''https://www.instagram.com/reel/x/''\<rparr>"




text \<open>An event that records a successful send or a screening rejection for the handle,
  and a trace in which the handle is admitted after such an event.\<close>

definition settles :: "handle \<Rightarrow> event \<Rightarrow> bool" where
  "settles h e =
     (case e of
        Recorded ha r \<Rightarrow> ha = h \<and> (sent r \<or> skippedReason r = Some ''screening'')
      | _ \<Rightarrow> False)"

fun readmitted :: "handle \<Rightarrow> event list \<Rightarrow> bool" where
  "readmitted h [] = False"
| "readmitted h (e # es) = ((settles h e \<and> Admit h \<in> set es) \<or> readmitted h es)"

definition settled_once :: "handle \<Rightarrow> world \<Rightarrow> bool" where
  "settled_once h w =
     (\<not> readmitted h (trace w)
      \<and> ((\<exists>e \<in> set (trace w). settles h e)
           \<longrightarrow> already_sent (state w) h \<or> failed_screening (state w) h))"


text \<open>A search with one suggestion and two posts that both belong to \<open>alice\<close>.\<close>

definition two_posts_env :: "send_env \<Rightarrow> igsearch_env" where
  "two_posts_env s =
     \<lparr>ig_session_ok = True,
      ig_query = (\<lambda>i.
        \<lparr>search = \<lparr>search_icon_ok = True, search_input_ok = True,
           suggestionLinks = Returned [Returned (Some ''/explore/search/keyword/?q=career'')],
           suggestion = (\<lambda>i. \<lparr>tab_newPage_ok = True, tab_goto_ok = True,
              reelLinks = Returned [Returned (Some ''/p/one/''), Returned (Some ''/p/two/'')],
              posts = (\<lambda>j. sample_post ''alice'' (provider_says ''MATCH: YES'') s)\<rparr>)\<rparr>,
         new_handle = (\<lambda>k. \<lparr>h_newPage_ok = True, h_goto_ok = True,
            h_screening = provider_says ''MATCH: YES'', h_sending = s, h_now = 2000,
            h_feed_ok = True\<rparr>),
         q_feed_ok = True\<rparr>)\<rparr>"

text \<open>No reply was detected by this check, and it comes less than three days after the
  message was sent.\<close>

definition quiet_check :: "followup_env \<Rightarrow> creator_record \<Rightarrow> bool" where
  "quiet_check e s =
     ((case checkReply (dm e) of Threw \<Rightarrow> True | Returned res \<Rightarrow> \<not> reply res)
      \<and> too_early (f_now e) s)"

text \<open>The record of the handle is marked as followed up; the sweep has followed the
  handle up at most once; the handle was followed up before the sweep and the sweep
  does not touch that.\<close>

definition has_followedUp :: "store \<Rightarrow> handle \<Rightarrow> bool" where
  "has_followedUp st h = (case st h of None \<Rightarrow> False | Some r \<Rightarrow> followedUp r)"

definition followed_once :: "handle \<Rightarrow> world \<Rightarrow> bool" where
  "followed_once h w =
     (count_list (trace w) (FollowedUp h) \<le> 1
      \<and> (FollowedUp h \<in> set (trace w) \<longrightarrow> has_followedUp (state w) h))"

definition followed_before :: "handle \<Rightarrow> creator_record \<Rightarrow> world \<Rightarrow> bool" where
  "followed_before h s w =
     ((case state w h of
         None \<Rightarrow> False
       | Some r \<Rightarrow> followedUp r \<and> followedUpAt r = followedUpAt s)
      \<and> FollowUpAttempt h \<notin> set (trace w) \<and> FollowedUp h \<notin> set (trace w))"


text \<open>The record of the handle has \<open>replied\<close> (\<open>followedUp\<close>) in the second store and not
  in the first.\<close>

definition gains_replied :: "store \<Rightarrow> store \<Rightarrow> handle \<Rightarrow> bool" where
  "gains_replied st st' h =
     (case st' h of
        None \<Rightarrow> False
      | Some s' \<Rightarrow> replied s' \<and> (case st h of None \<Rightarrow> True | Some s \<Rightarrow> \<not> replied s))"

definition gains_followedUp :: "store \<Rightarrow> store \<Rightarrow> handle \<Rightarrow> bool" where
  "gains_followedUp st st' h =
     (case st' h of
        None \<Rightarrow> False
      | Some s' \<Rightarrow> followedUp s' \<and> (case st h of None \<Rightarrow> True | Some s \<Rightarrow> \<not> followedUp s))"

definition sample_followup :: "nat option \<Rightarrow> int \<Rightarrow> followup_env" where
  "sample_followup r t =
     \<lparr>f_feed_ok = True, dm = \<lparr>dm_profile_ok = True, message_button = True, rows = r\<rparr>,
      f_now = t, followup_typed = True, f_typed_at = t + 5000\<rparr>"

text \<open>A search with two suggestions whose result pages both link to the same post.\<close>

definition two_suggestions :: search_env where
  "two_suggestions =
     \<lparr>search_icon_ok = True, search_input_ok = True,
      suggestionLinks = Returned [Returned (Some ''/explore/search/keyword/?q=resume%20tips''),
                                 Returned (Some ''/explore/search/keyword/?q=resume%20help'')],
      suggestion = (\<lambda>i. \<lparr>tab_newPage_ok = True, tab_goto_ok = True,
         reelLinks = Returned [Returned (Some ''/p/one/'')],
         posts = (\<lambda>j. sample_post ''alice'' (provider_says ''MATCH: YES'') AllTyped)\<rparr>)\<rparr>"

section \<open>Lemmas\<close>

lemma emit_proj [simp]:
  "state (emit e w) = state w" "disk (emit e w) = disk w" "tabs (emit e w) = tabs w"
  "next_tab (emit e w) = next_tab w" "trace (emit e w) = trace w @ [e]"
  by (simp_all add: emit_def)

lemma newPage_proj [simp]:
  "state (newPage l w) = state w" "disk (newPage l w) = disk w"
  "tabs (newPage l w) = tabs w @ [(next_tab w, l)]"
  "next_tab (newPage l w) = Suc (next_tab w)" "trace (newPage l w) = trace w"
  by (simp_all add: newPage_def)

lemma closePage_proj [simp]:
  "state (closePage t w) = state w" "disk (closePage t w) = disk w"
  "tabs (closePage t w) = filter (\<lambda>p. fst p \<noteq> t) (tabs w)"
  "next_tab (closePage t w) = next_tab w" "trace (closePage t w) = trace w"
  by (simp_all add: closePage_def)

lemma saveState_proj [simp]:
  "state (saveState w) = state w" "disk (saveState w) = state w" "tabs (saveState w) = tabs w"
  "next_tab (saveState w) = next_tab w" "trace (saveState w) = trace w"
  by (simp_all add: saveState_def)

lemma record_result_proj [simp]:
  "state (record_result h r w) = (state w)(h \<mapsto> r)"
  "disk (record_result h r w) = (state w)(h \<mapsto> r)"
  "tabs (record_result h r w) = tabs w"
  "next_tab (record_result h r w) = next_tab w"
  "trace (record_result h r w) = trace w @ [Recorded h r]"
  by (simp_all add: record_result_def)

lemma close_unopened:
  "tabs_fresh w \<Longrightarrow> next_tab w \<le> t \<Longrightarrow> filter (\<lambda>p. fst p \<noteq> t) (tabs w) = tabs w"
  by (auto simp: tabs_fresh_def list_all_iff filter_id_conv)


lemma tabs_fresh_mono:
  "tabs_fresh w \<Longrightarrow> tabs w' = tabs w \<Longrightarrow> next_tab w \<le> next_tab w' \<Longrightarrow> tabs_fresh w'"
  by (auto simp: tabs_fresh_def list_all_iff)

lemma process_post_tabs:
  assumes "tabs_fresh w"
  shows "tabs (fst (process_post cfg url e (w, found))) = tabs w
       \<and> next_tab w \<le> next_tab (fst (process_post cfg url e (w, found)))"
  using assms
  by (simp add: process_post_def profile_try_def profile_block_def Let_def close_unopened
           split: outcome.splits flow.splits option.splits)

lemma already_sent_upd [simp]:
  "already_sent (st(ha \<mapsto> r)) h = (if h = ha then sent r else already_sent st h)"
  by (simp add: already_sent_def)

lemma failed_screening_upd [simp]:
  "failed_screening (st(ha \<mapsto> r)) h =
     (if h = ha then skippedReason r = Some ''screening'' else failed_screening st h)"
  by (simp add: failed_screening_def)


lemma posts_loop_inv:
  assumes "ig_invariant cfg I" and "I (fst ws)"
  shows "I (fst (posts_loop cfg envs j urls ws))"
  using assms(2)
proof (induction urls arbitrary: j ws)
  case Nil
  then show ?case by simp
next
  case (Cons url rest)
  obtain w found where ws: "ws = (w, found)"
    by (cases ws)
  have "I (fst (process_post cfg url (envs j) (w, found)))"
    using assms(1) Cons.prems ws by (simp add: ig_invariant_def)
  then show ?case
    by (simp add: Cons.IH ws)
qed

lemma process_suggestion_inv:
  assumes "ig_invariant cfg I" and "I (fst ws)"
  shows "I (fst (process_suggestion cfg url se ws))"
proof -
  have opened: "I (newPage SuggestionTab (fst ws))"
    using assms by (simp add: ig_invariant_def)
  have closing: "\<And>t w. I w \<Longrightarrow> I (closePage t w)"
    using assms(1) by (simp add: ig_invariant_def)
  have "I (fst (posts_loop cfg (posts se) 0 urls (newPage SuggestionTab (fst ws), snd ws)))"
    for urls
    by (rule posts_loop_inv [OF assms(1)]) (simp add: opened)
  then show ?thesis
    using assms(2) opened closing
    by (simp add: process_suggestion_def Let_def split: outcome.splits)
qed

lemma suggestions_loop_inv:
  assumes "ig_invariant cfg I" and "I (fst ws)"
  shows "I (fst (suggestions_loop cfg envs i urls ws))"
  using assms(2)
proof (induction urls arbitrary: i ws)
  case Nil
  then show ?case by simp
next
  case (Cons url rest)
  then show ?case
    by (simp add: process_suggestion_inv [OF assms(1)])
qed

lemma search_inv:
  assumes "ig_invariant cfg I" and "I w"
  shows "I (fst (searchInstagramForCreators cfg query env w))"
  using assms(2)
  by (simp add: searchInstagramForCreators_def suggestions_loop_inv [OF assms(1)])

lemma handles_loop_inv:
  assumes "ig_invariant cfg I" and "I w"
  shows "I (snd (handles_loop cfg envs k hs w))"
  using assms(2)
proof (induction hs arbitrary: k w)
  case Nil
  then show ?case by simp
next
  case (Cons h rest)
  have "I (snd (process_new_handle cfg h (envs k) w))"
    using assms(1) Cons.prems by (simp add: ig_invariant_def)
  then show ?case
    by (auto simp: Cons.IH split: prod.splits bool.splits)
qed

lemma process_query_inv:
  assumes "ig_invariant cfg I" and "I w"
  shows "I (snd (process_query cfg query qe w))"
proof -
  obtain w1 found where s: "searchInstagramForCreators cfg query (search qe) w = (w1, found)"
    by (cases "searchInstagramForCreators cfg query (search qe) w")
  have "I w1"
    using search_inv [OF assms, of query "search qe"] s by simp
  then have "I (snd (handles_loop cfg (new_handle qe) 0 found w1))"
    by (rule handles_loop_inv [OF assms(1)])
  then show ?thesis
    by (auto simp: process_query_def Let_def s split: prod.splits bool.splits)
qed

lemma queries_loop_inv:
  assumes "ig_invariant cfg I" and "I w"
  shows "I (snd (queries_loop cfg envs i qs w))"
  using assms(2)
proof (induction qs arbitrary: i w)
  case Nil
  then show ?case by simp
next
  case (Cons q rest)
  have "I (snd (process_query cfg q (envs i) w))"
    using Cons.prems by (rule process_query_inv [OF assms(1)])
  then show ?case
    by (auto simp: Cons.IH split: prod.splits bool.splits)
qed

lemma runIGSearch_inv:
  assumes "ig_invariant cfg I" and "I (start_world st)"
  shows "I (runIGSearch cfg queries env st)"
proof -
  have saving: "\<And>w. I w \<Longrightarrow> I (saveState w)"
    using assms(1) by (simp add: ig_invariant_def)
  have "I (snd (queries_loop cfg (ig_query env) 0 queries (start_world st)))"
    using assms by (rule queries_loop_inv)
  then show ?thesis
    using assms(2) saving by (simp add: runIGSearch_def end_run_def)
qed

lemma send_loop_inv:
  assumes "send_invariant cfg I" and "I w"
  shows "I (snd (send_loop cfg envs ci cs w))"
  using assms(2)
proof (induction cs arbitrary: ci w)
  case Nil
  then show ?case by simp
next
  case (Cons c rest)
  have "I (snd (send_creator cfg ci c (envs ci) w))"
    using assms(1) Cons.prems by (simp add: send_invariant_def)
  then show ?case
    by (auto simp: Cons.IH split: prod.splits bool.splits)
qed

lemma runSend_inv:
  assumes "send_invariant cfg I" and "I (start_world st)"
  shows "I (runSend cfg creators env st)"
proof -
  have saving: "\<And>w. I w \<Longrightarrow> I (saveState w)"
    using assms(1) by (simp add: send_invariant_def)
  have "I (snd (send_loop cfg (send_creator_env env) 0 creators (start_world st)))"
    using assms by (rule send_loop_inv)
  then show ?thesis
    using assms(2) saving by (simp add: runSend_def end_run_def)
qed

lemma followup_loop_inv:
  assumes "followup_invariant I" and "I w"
  shows "I (snd (followup_loop envs i cs w))"
  using assms(2)
proof (induction cs arbitrary: i w)
  case Nil
  then show ?case by simp
next
  case (Cons c rest)
  have "I (snd (followup_creator c (envs i) w))"
    using assms(1) Cons.prems by (simp add: followup_invariant_def)
  then show ?case
    by (auto simp: Cons.IH split: prod.splits bool.splits)
qed

lemma runFollowup_inv:
  assumes "followup_invariant I" and "I (start_world st)"
  shows "I (runFollowup creators env st)"
proof -
  have saving: "\<And>w. I w \<Longrightarrow> I (saveState w)"
    using assms(1) by (simp add: followup_invariant_def)
  have "I (snd (followup_loop (f_creator_env env) 0 creators (start_world st)))"
    using assms by (rule followup_loop_inv)
  then show ?thesis
    using assms(2) saving by (simp add: runFollowup_def end_run_def)
qed

lemma gate_distinct:
  "already_sent st h \<Longrightarrow> \<not> already_sent st ha \<Longrightarrow> h \<noteq> ha"
  by auto

lemma sent_untouched_post:
  "sent_untouched h w \<Longrightarrow> sent_untouched h (fst (process_post cfg url e (w, found)))"
  by (auto simp: sent_untouched_def process_post_def profile_try_def profile_block_def Let_def
           split: outcome.splits flow.splits option.splits)

lemma sent_untouched_new_handle:
  "sent_untouched h w \<Longrightarrow> sent_untouched h (snd (process_new_handle cfg ha e w))"
  by (auto simp: sent_untouched_def process_new_handle_def Let_def
           split: outcome.splits)

lemma sent_untouched_ig: "ig_invariant cfg (sent_untouched h)"
  unfolding ig_invariant_def
  by (auto simp: sent_untouched_post sent_untouched_new_handle)
     (auto simp: sent_untouched_def)

lemma sent_untouched_creator:
  "sent_untouched h w \<Longrightarrow> sent_untouched h (snd (send_creator cfg ci c e w))"
  by (auto simp: sent_untouched_def send_creator_def Let_def
           split: outcome.splits)

lemma sent_untouched_send: "send_invariant cfg (sent_untouched h)"
  unfolding send_invariant_def
  by (auto simp: sent_untouched_creator) (auto simp: sent_untouched_def)













lemma settles_simps [simp]:
  "settles h (Recorded ha r) = (ha = h \<and> (sent r \<or> skippedReason r = Some ''screening''))"
  "settles h (OpenPost u) = False" "settles h (Admit ha) = False"
  "settles h (OpenProfile ha) = False" "settles h (ScreenProfile ha) = False"
  "settles h (SendMessages ha) = False" "settles h (CheckReply ha) = False"
  "settles h (FollowUpAttempt ha) = False" "settles h (FollowedUp ha) = False"
  by (simp_all add: settles_def)

lemma readmitted_append [simp]:
  "readmitted h (xs @ ys) =
     (readmitted h xs \<or> readmitted h ys \<or> ((\<exists>e \<in> set xs. settles h e) \<and> Admit h \<in> set ys))"
  by (induction xs) auto

lemma readmitted_split:
  assumes "\<not> readmitted h (pre @ Recorded h r # post)"
    and "sent r \<or> skippedReason r = Some ''screening''"
  shows "Admit h \<notin> set post"
  using assms by auto

lemma settled_once_post:
  "settled_once h w \<Longrightarrow> settled_once h (fst (process_post cfg url e (w, found)))"
  by (auto simp: settled_once_def process_post_def profile_try_def profile_block_def Let_def
        screened_out_record_def send_record_def
      split: outcome.splits flow.splits option.splits)

lemma settled_once_new_handle:
  "settled_once h w \<Longrightarrow> settled_once h (snd (process_new_handle cfg ha e w))"
  by (auto simp: settled_once_def process_new_handle_def Let_def
        screened_out_record_def send_record_def
      split: outcome.splits)

lemma settled_once_ig: "ig_invariant cfg (settled_once h)"
  unfolding ig_invariant_def
  by (auto simp: settled_once_post settled_once_new_handle)
     (auto simp: settled_once_def)

lemma followup_quiet_step:
  assumes "state w (handle_of c) = Some s" and "sent s" and "quiet_check e s"
  shows "state (snd (followup_creator c e w)) = state w"
  using assms
  by (auto simp: followup_creator_def Let_def quiet_check_def
           split: outcome.splits option.splits)

lemma followup_other_step:
  assumes "handle_of c \<noteq> h"
  shows "state (snd (followup_creator c e w)) h = state w h"
  using assms
  by (auto simp: followup_creator_def Let_def
           split: outcome.splits option.splits)

lemma followup_loop_quiet:
  assumes "state w h = Some s" and "sent s"
    and "\<forall>j < length cs. handle_of (cs ! j) = h \<longrightarrow> quiet_check (envs (i + j)) s"
  shows "state (snd (followup_loop envs i cs w)) h = Some s"
  using assms
proof (induction cs arbitrary: i w)
  case Nil
  then show ?case by simp
next
  case (Cons c rest)
  obtain t w1 where step: "followup_creator c (envs i) w = (t, w1)"
    by (cases "followup_creator c (envs i) w")
  have kept: "state w1 h = Some s"
  proof (cases "handle_of c = h")
    case True
    with Cons.prems(3) have "quiet_check (envs i) s"
      by fastforce
    with Cons.prems(1,2) True have "state (snd (followup_creator c (envs i) w)) = state w"
      by (simp add: followup_quiet_step)
    with step Cons.prems(1) show ?thesis by simp
  next
    case False
    then have "state (snd (followup_creator c (envs i) w)) h = state w h"
      by (rule followup_other_step)
    with step Cons.prems(1) show ?thesis by simp
  qed
  have later: "\<forall>j < length rest. handle_of (rest ! j) = h \<longrightarrow> quiet_check (envs (Suc i + j)) s"
  proof (intro allI impI)
    fix j
    assume "j < length rest" and "handle_of (rest ! j) = h"
    with Cons.prems(3) [rule_format, of "Suc j"] show "quiet_check (envs (Suc i + j)) s"
      by simp
  qed
  show ?case
  proof (cases t)
    case True
    with step kept show ?thesis by simp
  next
    case False
    with step Cons.IH [OF kept Cons.prems(2) later] show ?thesis by simp
  qed
qed

lemma runFollowup_quiet:
  assumes "st h = Some s" and "sent s"
    and "\<forall>j < length creators. handle_of (creators ! j) = h
           \<longrightarrow> quiet_check (f_creator_env env j) s"
  shows "state (runFollowup creators env st) h = Some s
       \<and> disk (runFollowup creators env st) h = Some s"
proof -
  have start: "state (start_world st) h = Some s"
    using assms(1) by (simp add: start_world_def)
  have "state (snd (followup_loop (f_creator_env env) 0 creators (start_world st))) h = Some s"
    using start assms(2) assms(3) by (intro followup_loop_quiet) simp_all
  moreover have "disk w = state w \<Longrightarrow> disk (snd (followup_loop envs i cs w))
        = state (snd (followup_loop envs i cs w))" for w envs i cs
  proof (induction cs arbitrary: i w)
    case Nil
    then show ?case by simp
  next
    case (Cons c rest)
    have "disk (snd (followup_creator c (envs i) w)) = state (snd (followup_creator c (envs i) w))"
      using Cons.prems
      by (auto simp: followup_creator_def Let_def split: outcome.splits option.splits)
    then show ?case
      by (auto simp: Cons.IH split: prod.splits bool.splits)
  qed
  ultimately show ?thesis
    using assms(1) by (auto simp: runFollowup_def end_run_def start_world_def)
qed

lemma has_followedUp_upd [simp]:
  "has_followedUp (st(ha \<mapsto> r)) h = (if h = ha then followedUp r else has_followedUp st h)"
  by (simp add: has_followedUp_def)

lemma followed_once_step:
  "followed_once h w \<Longrightarrow> followed_once h (snd (followup_creator c e w))"
  by (auto simp: followed_once_def followup_creator_def Let_def has_followedUp_def
           split: outcome.splits option.splits)

lemma followed_once_inv: "followup_invariant (followed_once h)"
  unfolding followup_invariant_def
  by (auto simp: followed_once_step) (auto simp: followed_once_def)

lemma followed_before_step:
  "followed_before h s w \<Longrightarrow> followed_before h s (snd (followup_creator c e w))"
  by (auto simp: followed_before_def followup_creator_def Let_def
           split: outcome.splits option.splits)

lemma followed_before_inv: "followup_invariant (followed_before h s)"
  unfolding followup_invariant_def
  by (auto simp: followed_before_step) (auto simp: followed_before_def)

lemma followup_due_step:
  assumes "state w (handle_of c) = Some s" and "sent s" and "\<not> followedUp s"
    and "f_feed_ok e" and "checkReply (dm e) = Returned \<lparr>reply = False, error = False\<rparr>"
    and "\<not> too_early (f_now e) s" and "followup_typed e"
  shows "state (snd (followup_creator c e w)) (handle_of c)
       = Some (s\<lparr>followedUp := True, followedUpAt := Some (f_typed_at e)\<rparr>)"
  using assms
  by (simp add: followup_creator_def Let_def)


lemma gains_same [simp]:
  "\<not> gains_replied st st h" "\<not> gains_followedUp st st h"
  by (auto simp: gains_replied_def gains_followedUp_def split: option.splits)

lemma gains_upd [simp]:
  "gains_replied st (st(ha \<mapsto> r)) h =
     (h = ha \<and> replied r \<and> (case st h of None \<Rightarrow> True | Some s \<Rightarrow> \<not> replied s))"
  "gains_followedUp st (st(ha \<mapsto> r)) h =
     (h = ha \<and> followedUp r \<and> (case st h of None \<Rightarrow> True | Some s \<Rightarrow> \<not> followedUp s))"
  by (auto simp: gains_replied_def gains_followedUp_def split: option.splits)

lemma followup_gains_need_sent:
  assumes "gains_replied (state w) (state (snd (followup_creator c e w))) h
         \<or> gains_followedUp (state w) (state (snd (followup_creator c e w))) h"
  shows "already_sent (state w) h"
  using assms
  by (auto simp: followup_creator_def Let_def already_sent_def
           split: outcome.splits option.splits if_splits)

lemma followup_gain_after_three_days:
  assumes "gains_followedUp (state w) (state (snd (followup_creator c e w))) h"
    and "state w h = Some s"
  shows "\<not> too_early (f_now e) s"
  using assms
  by (auto simp: followup_creator_def Let_def
           split: outcome.splits option.splits if_splits)

lemma post_gains_nothing:
  "\<not> gains_replied (state w) (state (fst (process_post cfg url pe (w, found)))) h"
  "\<not> gains_followedUp (state w) (state (fst (process_post cfg url pe (w, found)))) h"
  by (auto simp: process_post_def profile_try_def profile_block_def Let_def
        screened_out_record_def send_record_def
      split: outcome.splits flow.splits option.splits)

lemma new_handle_gains_nothing:
  "\<not> gains_replied (state w) (state (snd (process_new_handle cfg ha he w))) h"
  "\<not> gains_followedUp (state w) (state (snd (process_new_handle cfg ha he w))) h"
  by (auto simp: process_new_handle_def Let_def screened_out_record_def send_record_def
      split: outcome.splits)

lemma creator_gains_nothing:
  "\<not> gains_replied (state w) (state (snd (send_creator cfg ci c ce w))) h"
  "\<not> gains_followedUp (state w) (state (snd (send_creator cfg ci c ce w))) h"
  by (auto simp: send_creator_def Let_def screened_out_record_def send_record_def
      split: outcome.splits)





lemma screenProfile_passes_when_call_throws:
  assumes "snapshot_ok env"
    and "fetched env = FetchFailed \<or> fetched env = Response status NotJson"
  shows "screenProfile cfg env = Returned pass_unknown"
  using assms by (auto simp: screenProfile_def)






lemma read_suggestions_length: "length (read_suggestions xs) \<le> length xs"
  by (induction xs rule: read_suggestions.induct) auto

lemma suggestionUrls_length: "length (suggestionUrls query links) \<le> 5"
proof (cases links)
  case Threw
  then show ?thesis by (simp add: suggestionUrls_def)
next
  case (Returned xs)
  have "length (read_suggestions (take 5 xs)) \<le> length (take 5 xs)"
    by (rule read_suggestions_length)
  then have "length (read_suggestions (take 5 xs)) \<le> 5"
    by simp
  with Returned show ?thesis
    by (simp add: suggestionUrls_def Let_def)
qed

lemma reel_loop_distinct:
  assumes "reel_loop xs seen acc = Returned urls" and "seen = set acc" and "distinct acc"
  shows "distinct urls \<and> length urls \<le> length acc + length xs"
  using assms
proof (induction xs seen acc rule: reel_loop.induct)
  case (1 seenUrls reelUrls)
  then show ?case by simp
next
  case (2 rest seenUrls reelUrls)
  then show ?case by simp
next
  case (3 rest seenUrls reelUrls)
  then show ?case by fastforce
next
  case (4 h rest seenUrls reelUrls)
  then show ?case
    by (auto split: if_splits)
qed

lemma collect_reelUrls_bound:
  assumes "collect_reelUrls links = Returned urls"
  shows "length urls \<le> 24 \<and> distinct urls"
proof -
  from assms obtain xs where l: "links = Returned xs"
    and r: "reel_loop (take 24 xs) {} [] = Returned urls"
    by (auto simp: collect_reelUrls_def split: outcome.splits)
  have "distinct urls \<and> length urls \<le> length ([]::string list) + length (take 24 xs)"
    using r by (rule reel_loop_distinct) simp_all
  then show ?thesis by simp
qed

section \<open>Theorems\<close>

text \<open>
  C6. The claim: whenever the classification call fails (network error, provider error,
  timeout, malformed response), screening returns a pass, never a rejection.
  The code does so only when the call throws. A provider error arrives as an HTTP
  response with a JSON body that has no \<open>choices\<close>; \<open>fetch\<close> resolves, the status is
  never read, the answer is the empty text and screenProfile returns a rejection.
  Here: HTTP 401 with the body \<open>{"error": {"message": "Incorrect API key"}}\<close>.
\<close>

theorem screenProfile_provider_error_rejects:
  "screenProfile \<lparr>SCREENING_ENABLED = True, OPENAI_KEY = ''sk-test'', own_handle = ''me''\<rparr>
     \<lparr>snapshot_ok = True,
      fetched = Response 401
        (Body (JObj [(''error'', JObj [(''message'', JStr ''Incorrect API key'')])]))\<rparr>
   = Returned \<lparr>passes = False, gender = ''unknown''\<rparr>"
  by (simp add: screenProfile_def answer_of_def opt_chain_def toUpperCase_def startsWith_def)

text \<open>
  C1. A handle whose stored record has \<open>sent\<close> set when a run starts is never passed to
  sendMessages in that run, and its profile is never opened: in runSend and in
  runIGSearch (the search over posts and the loop over the handles it returns), whatever
  the creators, the queries and the answers of the browser are.
\<close>

theorem sent_handle_never_messaged:
  assumes "st h = Some r" and "sent r"
  shows "SendMessages h \<notin> set (trace (runSend cfg creators senv st))
       \<and> OpenProfile h \<notin> set (trace (runSend cfg creators senv st))
       \<and> SendMessages h \<notin> set (trace (runIGSearch cfg queries ienv st))
       \<and> OpenProfile h \<notin> set (trace (runIGSearch cfg queries ienv st))"
proof -
  have start: "sent_untouched h (start_world st)"
    using assms by (simp add: sent_untouched_def start_world_def already_sent_def)
  have "sent_untouched h (runSend cfg creators senv st)"
    using sent_untouched_send start by (rule runSend_inv)
  moreover have "sent_untouched h (runIGSearch cfg queries ienv st)"
    using sent_untouched_ig start by (rule runIGSearch_inv)
  ultimately show ?thesis
    by (simp add: sent_untouched_def)
qed

theorem sent_handle_never_messaged_witness:
  "SendMessages ''alice'' \<notin> set (trace (runSend sample_cfg [sample_creator ''alice'']
       \<lparr>send_session_ok = True,
        send_creator_env = (\<lambda>i. \<lparr>c_feed_ok = True, c_open_ok = True,
           c_screening = provider_says ''MATCH: YES'', c_sending = AllTyped, c_now = 2000,
           c_home_ok = True\<rparr>)\<rparr>
       [''alice'' \<mapsto> send_record True 1000 [] None]))
   \<and> SendMessages ''alice'' \<notin> set (trace (runIGSearch sample_cfg [''career tips'']
       \<lparr>ig_session_ok = True,
        ig_query = (\<lambda>i. \<lparr>search = \<lparr>search_icon_ok = True, search_input_ok = True,
             suggestionLinks = Returned [],
             suggestion = (\<lambda>i. \<lparr>tab_newPage_ok = True, tab_goto_ok = True,
                reelLinks = Returned [Returned (Some ''/p/abc/'')],
                posts = (\<lambda>j. sample_post ''alice'' (provider_says ''MATCH: YES'') AllTyped)\<rparr>)\<rparr>,
           new_handle = (\<lambda>k. \<lparr>h_newPage_ok = True, h_goto_ok = True,
              h_screening = provider_says ''MATCH: YES'', h_sending = AllTyped, h_now = 2000,
              h_feed_ok = True\<rparr>),
           q_feed_ok = True\<rparr>)\<rparr>
       [''alice'' \<mapsto> send_record True 1000 [] None]))"
  using sent_handle_never_messaged [of "[''alice'' \<mapsto> send_record True 1000 [] None]"
      "''alice''" "send_record True 1000 [] None"]
  by (simp add: send_record_def)

text \<open>
  C4. Processing one post of a search leaves the open tabs as it found them: with no
  post tab and no profile tab open before, none is open after, on every path of
  \<open>process_post\<close> (handle not found, own profile, already sent, screened out before,
  screening rejects, the send fails or succeeds, and every throw of the calls in it).
  The identifiers of the open tabs are below the next fresh one before, and after.
\<close>

theorem tab_balance:
  assumes "tabs_fresh w"
    and "open_tabs PostTab w = 0" and "open_tabs ProfileTab w = 0"
  shows "open_tabs PostTab (fst (process_post cfg url e (w, found))) = 0
       \<and> open_tabs ProfileTab (fst (process_post cfg url e (w, found))) = 0
       \<and> tabs (fst (process_post cfg url e (w, found))) = tabs w
       \<and> tabs_fresh (fst (process_post cfg url e (w, found)))"
proof -
  have same: "tabs (fst (process_post cfg url e (w, found))) = tabs w"
    and later: "next_tab w \<le> next_tab (fst (process_post cfg url e (w, found)))"
    using process_post_tabs [OF assms(1), of cfg url e found] by simp_all
  have "tabs_fresh (fst (process_post cfg url e (w, found)))"
    using assms(1) same later by (rule tabs_fresh_mono)
  with same assms(2,3) show ?thesis
    by (simp add: open_tabs_def)
qed

theorem tab_balance_witness:
  "open_tabs PostTab (fst (process_post sample_cfg ''https://www.instagram.com/p/abc/''
       (sample_post ''alice'' (provider_says ''MATCH: NO'') SendThrows)
       (start_world (\<lambda>h. None), []))) = 0
   \<and> open_tabs ProfileTab (fst (process_post sample_cfg ''https://www.instagram.com/p/abc/''
       (sample_post ''alice'' (provider_says ''MATCH: NO'') SendThrows)
       (start_world (\<lambda>h. None), []))) = 0"
  using tab_balance [of "start_world (\<lambda>h. None)" sample_cfg
      "''https://www.instagram.com/p/abc/''"
      "sample_post ''alice'' (provider_says ''MATCH: NO'') SendThrows" "[]"]
  by (simp add: tabs_fresh_def open_tabs_def start_world_def)



text \<open>
  C3. The claim: a handle found from two posts of one run is admitted at most once,
  whatever the first admission's outcome. The gate skips a handle only when its record
  is sent or screened out ("Skip only if successfully sent OR properly screened out");
  \<open>found\<close> receives a handle only after a successful send. So after a failed send the
  second post of the same handle is admitted again, by design (a retry): here both
  posts of \<open>alice\<close> are admitted when the Message button is missing.
\<close>

theorem readmitted_after_failed_send:
  "count_list (trace (runIGSearch sample_cfg [''career tips''] (two_posts_env NoMessageButton)
      (\<lambda>h. None))) (Admit ''alice'') = 2"
  by code_simp


text \<open>
  C3 as amended: in a run of runIGSearch, once a successful send or a screening
  rejection has been recorded for a handle, the handle is not admitted again.
\<close>

theorem settled_handle_not_readmitted:
  assumes "trace (runIGSearch cfg queries env st) = pre @ Recorded h r # post"
    and "sent r \<or> skippedReason r = Some ''screening''"
  shows "Admit h \<notin> set post"
proof -
  have "settled_once h (start_world st)"
    by (simp add: settled_once_def start_world_def)
  with settled_once_ig have "settled_once h (runIGSearch cfg queries env st)"
    by (rule runIGSearch_inv)
  then have "\<not> readmitted h (pre @ Recorded h r # post)"
    using assms(1) by (simp add: settled_once_def)
  then show ?thesis
    using assms(2) by (rule readmitted_split)
qed

theorem settled_handle_not_readmitted_witness:
  "trace (runIGSearch sample_cfg [''career tips''] (two_posts_env AllTyped) (\<lambda>h. None))
     = [OpenPost ''https://www.instagram.com/p/one/'', Admit ''alice'', OpenProfile ''alice'',
        ScreenProfile ''alice'', SendMessages ''alice''] 
       @ Recorded ''alice'' (send_record True 1000 ''https://www.instagram.com/p/one/'' (Some ''ig''))
       # [OpenPost ''https://www.instagram.com/p/two/'']
   \<and> sent (send_record True 1000 ''https://www.instagram.com/p/one/'' (Some ''ig''))
   \<and> Admit ''alice'' \<notin> set [OpenPost ''https://www.instagram.com/p/two/'']"
proof -
  have run: "trace (runIGSearch sample_cfg [''career tips''] (two_posts_env AllTyped) (\<lambda>h. None))
     = [OpenPost ''https://www.instagram.com/p/one/'', Admit ''alice'', OpenProfile ''alice'',
        ScreenProfile ''alice'', SendMessages ''alice''] 
       @ Recorded ''alice'' (send_record True 1000 ''https://www.instagram.com/p/one/'' (Some ''ig''))
       # [OpenPost ''https://www.instagram.com/p/two/'']"
    by code_simp
  have s: "sent (send_record True 1000 ''https://www.instagram.com/p/one/'' (Some ''ig''))"
    by (simp add: send_record_def)
  from s have "sent (send_record True 1000 ''https://www.instagram.com/p/one/'' (Some ''ig''))
      \<or> skippedReason (send_record True 1000 ''https://www.instagram.com/p/one/'' (Some ''ig''))
          = Some ''screening''" ..
  with run have "Admit ''alice'' \<notin> set [OpenPost ''https://www.instagram.com/p/two/'']"
    by (rule settled_handle_not_readmitted)
  with run s show ?thesis by blast
qed

text \<open>
  C5. In the follow-up sweep a sent record whose check detects no reply less than three
  days after \<open>sentAt\<close> is left as it is: the step changes nothing in the state, and a
  sweep in which every check of the handle is such a check ends with the same record in
  memory and in the file. A sent record not yet followed up, with no reply and no error,
  three days or more after \<open>sentAt\<close>, gets \<open>followedUp\<close> (and \<open>followedUpAt\<close>) when the
  follow-up message is typed. A sweep marks a handle as followed up at most once, and a
  record already followed up is neither followed up nor changed in these two fields.
\<close>

theorem followup_gating:
  "(state w (handle_of c) = Some s \<and> sent s \<and> quiet_check e s
      \<longrightarrow> state (snd (followup_creator c e w)) = state w)
   \<and> (st h = Some s \<and> sent s
       \<and> (\<forall>j < length creators. handle_of (creators ! j) = h
             \<longrightarrow> quiet_check (f_creator_env env j) s)
      \<longrightarrow> state (runFollowup creators env st) h = Some s
          \<and> disk (runFollowup creators env st) h = Some s)
   \<and> (state w (handle_of c) = Some s \<and> sent s \<and> \<not> followedUp s \<and> f_feed_ok e
       \<and> checkReply (dm e) = Returned \<lparr>reply = False, error = False\<rparr>
       \<and> \<not> too_early (f_now e) s \<and> followup_typed e
      \<longrightarrow> state (snd (followup_creator c e w)) (handle_of c)
          = Some (s\<lparr>followedUp := True, followedUpAt := Some (f_typed_at e)\<rparr>))
   \<and> count_list (trace (runFollowup creators env st)) (FollowedUp h) \<le> 1
   \<and> (st h = Some s \<and> followedUp s
      \<longrightarrow> followed_before h s (runFollowup creators env st))"
proof -
  have once: "followed_once h (runFollowup creators env st)"
    by (rule runFollowup_inv [OF followed_once_inv])
       (simp add: followed_once_def start_world_def)
  have before: "followed_before h s (runFollowup creators env st)"
    if "st h = Some s" and "followedUp s"
    by (rule runFollowup_inv [OF followed_before_inv])
       (use that in \<open>simp add: followed_before_def start_world_def\<close>)
  show ?thesis
    using followup_quiet_step [of w c s e] runFollowup_quiet [of st h s creators env]
      followup_due_step [of w c s e] once before
    by (simp add: followed_once_def)
qed

theorem followup_gating_witness:
  "state (snd (followup_creator (sample_creator ''alice'')
      (sample_followup (Some 4) (1000 + 86400000))
      (start_world [''alice'' \<mapsto> send_record True 1000 [] None])))
     = state (start_world [''alice'' \<mapsto> send_record True 1000 [] None])
   \<and> state (snd (followup_creator (sample_creator ''alice'')
        (sample_followup (Some 4) (1000 + 4 * 86400000))
        (start_world [''alice'' \<mapsto> send_record True 1000 [] None]))) ''alice''
     = Some ((send_record True 1000 [] None)
          \<lparr>followedUp := True, followedUpAt := Some (1000 + 4 * 86400000 + 5000)\<rparr>)"
proof -
  let ?w = "start_world [''alice'' \<mapsto> send_record True 1000 [] None]"
  let ?c = "sample_creator ''alice''"
  let ?s = "send_record True 1000 [] None"
  let ?early = "sample_followup (Some 4) (1000 + 86400000)"
  let ?due = "sample_followup (Some 4) (1000 + 4 * 86400000)"
  have s: "state ?w (handle_of ?c) = Some ?s" "sent ?s" "\<not> followedUp ?s"
    by (simp_all add: start_world_def sample_creator_def send_record_def)
  have q: "quiet_check ?early ?s"
    by code_simp
  have d: "f_feed_ok ?due" "checkReply (dm ?due) = Returned \<lparr>reply = False, error = False\<rparr>"
    "\<not> too_early (f_now ?due) ?s" "followup_typed ?due"
    by code_simp+
  have "state (snd (followup_creator ?c ?early ?w)) = state ?w"
    using s q followup_gating [where w = ?w and c = ?c and s = ?s and e = ?early] by blast
  moreover have "state (snd (followup_creator ?c ?due ?w)) (handle_of ?c)
      = Some (?s\<lparr>followedUp := True, followedUpAt := Some (f_typed_at ?due)\<rparr>)"
    using s d followup_gating [where w = ?w and c = ?c and s = ?s and e = ?due] by blast
  ultimately show ?thesis
    by (simp add: sample_creator_def sample_followup_def)
qed

text \<open>
  C9. The claim: \<open>replied\<close> and \<open>followedUp\<close> are acquired only by a sent record, and
  either only three days or more after \<open>sentAt\<close>. The three-day test of runFollowup
  guards the follow-up branch only ("Only follow up after 3 days"); \<open>replied\<close> is set as
  soon as checkReply reports a reply. Here a reply is recorded one hour after the send.
\<close>

theorem reply_recorded_within_three_days:
  "too_early (1000 + 3600000) (send_record True 1000 [] None)
   \<and> gains_replied (state (start_world [''alice'' \<mapsto> send_record True 1000 [] None]))
       (state (snd (followup_creator (sample_creator ''alice'')
          (sample_followup (Some 7) (1000 + 3600000))
          (start_world [''alice'' \<mapsto> send_record True 1000 [] None])))) ''alice''"
  by code_simp


text \<open>
  C9 as amended: a step of the follow-up sweep gives a record \<open>replied\<close> or \<open>followedUp\<close>
  only if the record was sent, and \<open>followedUp\<close> only three days or more after \<open>sentAt\<close>;
  no step of the send and search paths gives a record either of them.
\<close>

theorem reply_and_followup_only_from_sent:
  "(gains_replied (state w) (state (snd (followup_creator c e w))) h
      \<or> gains_followedUp (state w) (state (snd (followup_creator c e w))) h
     \<longrightarrow> already_sent (state w) h)
   \<and> (gains_followedUp (state w) (state (snd (followup_creator c e w))) h
       \<and> state w h = Some s
     \<longrightarrow> \<not> too_early (f_now e) s)
   \<and> \<not> gains_replied (state w) (state (fst (process_post cfg url pe (w, found)))) h
   \<and> \<not> gains_followedUp (state w) (state (fst (process_post cfg url pe (w, found)))) h
   \<and> \<not> gains_replied (state w) (state (snd (process_new_handle cfg ha he w))) h
   \<and> \<not> gains_followedUp (state w) (state (snd (process_new_handle cfg ha he w))) h
   \<and> \<not> gains_replied (state w) (state (snd (send_creator cfg ci cr ce w))) h
   \<and> \<not> gains_followedUp (state w) (state (snd (send_creator cfg ci cr ce w))) h"
  using followup_gains_need_sent [of w c e h] followup_gain_after_three_days [of w c e h s]
    post_gains_nothing [of w cfg url pe found h] new_handle_gains_nothing [of w cfg ha he h]
    creator_gains_nothing [of w cfg ci cr ce h]
  by blast

theorem reply_and_followup_only_from_sent_witness:
  "already_sent (state (start_world [''alice'' \<mapsto> send_record True 1000 [] None])) ''alice''
   \<and> \<not> too_early (f_now (sample_followup (Some 3) (1000 + 4 * 86400000)))
        (send_record True 1000 [] None)"
proof -
  have g: "gains_followedUp (state (start_world [''alice'' \<mapsto> send_record True 1000 [] None]))
       (state (snd (followup_creator (sample_creator ''alice'')
          (sample_followup (Some 3) (1000 + 4 * 86400000))
          (start_world [''alice'' \<mapsto> send_record True 1000 [] None])))) ''alice''"
    by code_simp
  have s: "state (start_world [''alice'' \<mapsto> send_record True 1000 [] None]) ''alice''
      = Some (send_record True 1000 [] None)"
    by (simp add: start_world_def)
  show ?thesis
    using g s reply_and_followup_only_from_sent
      [where w = "start_world [''alice'' \<mapsto> send_record True 1000 [] None]"
        and c = "sample_creator ''alice''"
        and e = "sample_followup (Some 3) (1000 + 4 * 86400000)"
        and h = "''alice''" and s = "send_record True 1000 [] None"]
    by blast
qed









text \<open>
  C8. The claim: at most 5 suggestions are read, at most 24 post links are collected
  per suggestion, and the post URLs of one keyword hold no duplicate across its
  suggestions. \<open>seenUrls\<close> is created anew for every suggestion, so the same post
  reached from two suggestions of one keyword is opened twice.
\<close>

theorem same_post_from_two_suggestions:
  "count_list (trace (fst (searchInstagramForCreators sample_cfg ''resume'' two_suggestions
      (start_world (\<lambda>h. None))))) (OpenPost ''https://www.instagram.com/p/one/'') = 2"
  by code_simp


text \<open>
  C8 as amended: a keyword is expanded into at most 5 suggestion URLs, and the post URLs
  collected for one suggestion are at most 24 and pairwise distinct.
\<close>

theorem expansion_bounds:
  "length (suggestionUrls query links) \<le> 5
   \<and> (collect_reelUrls reels = Returned urls \<longrightarrow> length urls \<le> 24 \<and> distinct urls)"
  using suggestionUrls_length [of query links] collect_reelUrls_bound [of reels urls]
  by blast

theorem expansion_bounds_witness:
  "collect_reelUrls (Returned [Returned (Some ''/p/one/''), Returned (Some ''/reel/two/''),
       Returned (Some ''/p/one/''), Returned None])
     = Returned [''https://www.instagram.com/p/one/'', ''https://www.instagram.com/reel/two/'']
   \<and> distinct [''https://www.instagram.com/p/one/'', ''https://www.instagram.com/reel/two/'']"
proof -
  have "collect_reelUrls (Returned [Returned (Some ''/p/one/''), Returned (Some ''/reel/two/''),
       Returned (Some ''/p/one/''), Returned None])
     = Returned [''https://www.instagram.com/p/one/'', ''https://www.instagram.com/reel/two/'']"
    by code_simp
  then show ?thesis
    using expansion_bounds
      [where reels = "Returned [Returned (Some ''/p/one/''), Returned (Some ''/reel/two/''),
         Returned (Some ''/p/one/''), Returned None]"
        and urls = "[''https://www.instagram.com/p/one/'', ''https://www.instagram.com/reel/two/'']"]
    by blast
qed

end
